theory Spec2Isabelle
  imports Complex_Main
begin

section \<open>Python strings\<close>

text \<open>
  A Python \<^verbatim>\<open>str\<close> is modelled as a HOL \<^typ>\<open>string\<close>; its characters stand for the
  code points 0..255.  The functions of this section are \<^verbatim>\<open>str.strip\<close>,
  \<^verbatim>\<open>str.lower\<close>, \<^verbatim>\<open>str.encode\<close> and the formatting of an integer by an
  f-string, on that range of code points.
\<close>

definition code :: "char \<Rightarrow> nat" where
  "code c = of_char c"

text \<open>\<^verbatim>\<open>str.isspace\<close>: U+0009..U+000D, U+001C..U+0020, U+0085 and U+00A0.\<close>

definition is_space :: "char \<Rightarrow> bool" where
  "is_space c = ((9 \<le> code c \<and> code c \<le> 13) \<or> (28 \<le> code c \<and> code c \<le> 32)
                  \<or> code c = 133 \<or> code c = 160)"

definition strip :: "string \<Rightarrow> string" where
  "strip s = rev (dropWhile is_space (rev (dropWhile is_space s)))"

text \<open>\<^verbatim>\<open>str.lower\<close>: A..Z and the capital letters U+00C0..U+00DE (without U+00D7).\<close>

definition lower_char :: "char \<Rightarrow> char" where
  "lower_char c =
     (if (65 \<le> code c \<and> code c \<le> 90) \<or> (192 \<le> code c \<and> code c \<le> 222 \<and> code c \<noteq> 215)
      then char_of (code c + 32) else c)"

definition lower :: "string \<Rightarrow> string" where
  "lower s = map lower_char s"

text \<open>The decimal numeral of an integer, as \<^verbatim>\<open>f"{degree}"\<close> prints it.\<close>

fun digits_of :: "nat \<Rightarrow> string" where
  "digits_of n =
     (if n < 10 then [char_of (48 + n)]
      else digits_of (n div 10) @ [char_of (48 + n mod 10)])"

declare digits_of.simps [simp del]

definition str_int :: "int \<Rightarrow> string" where
  "str_int i = (if i < 0 then CHR ''-'' # digits_of (nat (- i)) else digits_of (nat i))"

text \<open>
  \<^verbatim>\<open>str.encode\<close>: the ASCII codec raises \<^verbatim>\<open>UnicodeEncodeError\<close> (here
  \<open>None\<close>) on a code point above 127, UTF-8 writes such a code point as two bytes.
\<close>

datatype encoding = Ascii | Utf8

definition utf8_char :: "char \<Rightarrow> string" where
  "utf8_char c =
     (if code c < 128 then [c]
      else [char_of (192 + code c div 64), char_of (128 + code c mod 64)])"

definition encode :: "encoding \<Rightarrow> string \<Rightarrow> string option" where
  "encode e s =
     (case e of
        Ascii \<Rightarrow> (if list_all (\<lambda>c. code c < 128) s then Some s else None)
      | Utf8 \<Rightarrow> Some (concat (map utf8_char s)))"

section \<open>Values decoded from JSON\<close>

text \<open>
  The values \<^verbatim>\<open>json.loads\<close> returns.  A Python float is a finite rational or one of
  the three special values; a \<^verbatim>\<open>dict\<close> is an association list read with
  \<^const>\<open>map_of\<close>.
\<close>

datatype pyfloat = Finite rat | PosInf | NegInf | NaN

datatype json =
    JNull
  | JBool bool
  | JInt int
  | JFloat pyfloat
  | JStr string
  | JArr "json list"
  | JObj "(string \<times> json) list"

datatype py_exn =
    JSONDecodeError | AttributeError | TypeError | ValueError | OverflowError
  | KeyError | IndexError | RuntimeError

text \<open>
  The parts of the Python runtime the handlers call and the repository does not
  define: the JSON decoder (\<open>None\<close> when it raises), \<^verbatim>\<open>str()\<close> of a value that is
  not a string, and \<^verbatim>\<open>int()\<close> of a string (\<open>None\<close> when it raises
  \<^verbatim>\<open>ValueError\<close>).  Every general theorem below holds for any such functions.
\<close>

record pylib =
  json_loads :: "string \<Rightarrow> json option"
  str_of_value :: "json \<Rightarrow> string"
  int_of_str :: "string \<Rightarrow> int option"

definition py_str :: "pylib \<Rightarrow> json \<Rightarrow> string" where
  "py_str lib v = (case v of JStr s \<Rightarrow> s | _ \<Rightarrow> str_of_value lib v)"

text \<open>\<^verbatim>\<open>int(x)\<close> of a float truncates towards zero.\<close>

definition trunc :: "rat \<Rightarrow> int" where
  "trunc q = (if q < 0 then - \<lfloor>- q\<rfloor> else \<lfloor>q\<rfloor>)"

definition py_int :: "pylib \<Rightarrow> json \<Rightarrow> py_exn + int" where
  "py_int lib v =
     (case v of
        JInt i \<Rightarrow> Inr i
      | JBool b \<Rightarrow> Inr (if b then 1 else 0)
      | JFloat f \<Rightarrow>
          (case f of Finite q \<Rightarrow> Inr (trunc q) | NaN \<Rightarrow> Inl ValueError | _ \<Rightarrow> Inl OverflowError)
      | JStr s \<Rightarrow> (case int_of_str lib s of Some i \<Rightarrow> Inr i | None \<Rightarrow> Inl ValueError)
      | _ \<Rightarrow> Inl TypeError)"

text \<open>\<^verbatim>\<open>dict.get(key, default)\<close>\<close>

definition dict_get :: "(string \<times> json) list \<Rightarrow> string \<Rightarrow> json \<Rightarrow> json" where
  "dict_get d k dflt = (case map_of d k of Some v \<Rightarrow> v | None \<Rightarrow> dflt)"

section \<open>SimpleESP32Handler\<close>

text \<open>
  The handler object: \<open>is_connected\<close> is set by the constructor; \<open>port_accepts\<close> tells
  for each byte string whether \<^verbatim>\<open>reset_output_buffer\<close>, \<^verbatim>\<open>write\<close> and
  \<^verbatim>\<open>flush\<close> of the serial connection go through without an exception.
\<close>

record esp32 =
  is_connected :: bool
  port_accepts :: "string \<Rightarrow> bool"

text \<open>What a call of the handler does to the outside, in order.\<close>

datatype io = SendCommand string | Write string

subsection \<open>parse_json_to_command\<close>

text \<open>The body of the \<^verbatim>\<open>try\<close> block: \<open>Inl\<close> is the exception it raises.\<close>

definition json_to_command :: "pylib \<Rightarrow> string \<Rightarrow> py_exn + string" where
  "json_to_command lib json_response =
     (case json_loads lib (strip json_response) of
        None \<Rightarrow> Inl JSONDecodeError
      | Some data \<Rightarrow>
          (case data of
             JObj d \<Rightarrow>
               (let action = lower (py_str lib (dict_get d ''action'' (JStr ''move'')))
                in case py_int lib (dict_get d ''degree'' (JInt 0)) of
                     Inl e \<Rightarrow> Inl e
                   | Inr degree \<Rightarrow> Inr (action @ str_int degree))
           | _ \<Rightarrow> Inl AttributeError))"

definition parse_json_to_command :: "pylib \<Rightarrow> string \<Rightarrow> string" where
  "parse_json_to_command lib json_response =
     (case json_to_command lib json_response of
        Inr command \<Rightarrow> command
      | Inl e \<Rightarrow> ''move0'')"

subsection \<open>send_command\<close>

definition newline_patterns :: "string list" where
  "newline_patterns = [[CHR 0x0A], [CHR 0x0D, CHR 0x0A], [CHR 0x0D]]"

text \<open>
  The two nested loops: the first combination of encoding and line end whose
  message encodes and is accepted by the port is written, and the loops end.
\<close>

fun try_patterns :: "esp32 \<Rightarrow> string \<Rightarrow> (encoding \<times> string) list \<Rightarrow> string option" where
  "try_patterns h command [] = None"
| "try_patterns h command ((enc, newline) # rest) =
     (case encode enc (command @ newline) of
        None \<Rightarrow> try_patterns h command rest
      | Some encoded_message \<Rightarrow>
          if port_accepts h encoded_message then Some encoded_message
          else try_patterns h command rest)"

definition send_command :: "esp32 \<Rightarrow> string \<Rightarrow> encoding list \<Rightarrow> bool \<times> io list" where
  "send_command h command encoding_list =
     (if \<not> is_connected h then (False, [])
      else
        (case try_patterns h (strip command)
                (List.product encoding_list newline_patterns) of
           Some encoded_message \<Rightarrow> (True, [Write encoded_message])
         | None \<Rightarrow> (False, [])))"

subsection \<open>send\<close>

text \<open>
  \<^verbatim>\<open>re.search(r'\{.*\}', text, re.DOTALL)\<close>: the match starts at the first opening
  brace and, the star being greedy, ends at the last closing brace after it; there is
  no match when no closing brace follows the first opening one.
\<close>

definition json_match :: "string \<Rightarrow> string option" where
  "json_match text =
     (let from_brace = dropWhile (\<lambda>c. c \<noteq> CHR ''{'') text;
          matched = rev (dropWhile (\<lambda>c. c \<noteq> CHR ''}'') (rev from_brace))
      in if matched = [] then None else Some matched)"

text \<open>\<open>command_to_send\<close> as it stands before the final test of \<^verbatim>\<open>send\<close>.\<close>

definition command_to_send :: "pylib \<Rightarrow> string \<Rightarrow> string" where
  "command_to_send lib text0 =
     (let text = strip text0;
          parsed = (case json_match text of
                      Some json_str \<Rightarrow> Some (parse_json_to_command lib json_str)
                    | None \<Rightarrow> None)
      in case parsed of
           None \<Rightarrow> text
         | Some c \<Rightarrow> if c = [] \<or> c = ''move0'' then text else c)"

definition send :: "pylib \<Rightarrow> esp32 \<Rightarrow> string \<Rightarrow> bool \<times> io list" where
  "send lib h text0 =
     (let c = command_to_send lib text0
      in if c \<noteq> [] \<and> c \<noteq> ''move0''
         then (let (ok, out) = send_command h c [Ascii, Utf8]
               in (ok, SendCommand c # out))
         else (False, []))"

section \<open>OpenAIAPIHandler\<close>

text \<open>
  A metadata dictionary is an association list; the empty list stands for both
  \<^verbatim>\<open>None\<close> and \<^verbatim>\<open>{}\<close>, which the handlers do not tell apart
  (\<^verbatim>\<open>if metadata:\<close>).
\<close>

type_synonym metadata = "(string \<times> string) list"

text \<open>
  What \<^verbatim>\<open>session.post\<close> does on one attempt: it returns a response with a status code
  and a body, or raises \<^verbatim>\<open>Timeout\<close> or another \<^verbatim>\<open>RequestException\<close>.  The retry
  count is a natural number: \<^verbatim>\<open>range\<close> of a negative count is empty, as that of 0.
\<close>

datatype http_result = Response nat string | Timeout | RequestException

record openai =
  system_prompt :: "string option"
  retry_count :: nat
  esp32_handler :: "esp32 option"

datatype api_io = Post | Sleep nat | Forward string bool "io list"

text \<open>\<^verbatim>\<open>value[key]\<close> with a string key, and \<^verbatim>\<open>value[0]\<close>.\<close>

definition subscript :: "json \<Rightarrow> string \<Rightarrow> py_exn + json" where
  "subscript v k =
     (case v of
        JObj d \<Rightarrow> (case map_of d k of Some x \<Rightarrow> Inr x | None \<Rightarrow> Inl KeyError)
      | _ \<Rightarrow> Inl TypeError)"

definition subscript0 :: "json \<Rightarrow> py_exn + json" where
  "subscript0 v =
     (case v of
        JArr xs \<Rightarrow> (case xs of [] \<Rightarrow> Inl IndexError | x # _ \<Rightarrow> Inr x)
      | JStr s \<Rightarrow> (case s of [] \<Rightarrow> Inl IndexError | c # _ \<Rightarrow> Inr (JStr [c]))
      | JObj d \<Rightarrow> Inl KeyError
      | _ \<Rightarrow> Inl TypeError)"

definition bind_exn :: "py_exn + 'a \<Rightarrow> ('a \<Rightarrow> py_exn + 'b) \<Rightarrow> py_exn + 'b" where
  "bind_exn r f = (case r of Inl e \<Rightarrow> Inl e | Inr x \<Rightarrow> f x)"

text \<open>
  The two reads of the decoded body:
  \<^verbatim>\<open>result['choices'][0]['message']['content']\<close>, then
  \<^verbatim>\<open>result['usage']['total_tokens']\<close>.  The value is the first one.
\<close>

definition read_result :: "json \<Rightarrow> py_exn + json" where
  "read_result result =
     bind_exn (subscript result ''choices'') (\<lambda>choices.
     bind_exn (subscript0 choices) (\<lambda>choice.
     bind_exn (subscript choice ''message'') (\<lambda>message.
     bind_exn (subscript message ''content'') (\<lambda>ai_response.
     bind_exn (subscript result ''usage'') (\<lambda>usage.
     bind_exn (subscript usage ''total_tokens'') (\<lambda>total_tokens.
     Inr ai_response))))))"

text \<open>The forwarding of the answer to the ESP32 handler, when there is one.\<close>

definition forward :: "pylib \<Rightarrow> openai \<Rightarrow> json \<Rightarrow> api_io list" where
  "forward lib h ai_response =
     (case esp32_handler h of
        None \<Rightarrow> []
      | Some e \<Rightarrow>
          (let text = py_str lib ai_response; (success, out) = send lib e text
           in [Forward text success out]))"

text \<open>
  The retry loop, from attempt number \<open>attempt\<close> on.  \<open>net attempt\<close> is what the
  request of that attempt meets.  The result is what \<^verbatim>\<open>send\<close> returns (\<open>Inl\<close>: the
  exception that leaves it) and what it did.
\<close>

function retry_loop ::
  "pylib \<Rightarrow> openai \<Rightarrow> (nat \<Rightarrow> http_result) \<Rightarrow> nat \<Rightarrow> (py_exn + bool) \<times> api_io list" where
  "retry_loop lib h net attempt =
     (if retry_count h \<le> attempt then (Inr False, [])
      else
        (let wait = (if attempt + 1 < retry_count h then [Sleep (2 ^ attempt)] else []);
             (r, rest) = retry_loop lib h net (attempt + 1);
             again = (r, Post # wait @ rest)
         in case net attempt of
              Response status_code body \<Rightarrow>
                if status_code = 200 then
                  (case json_loads lib body of
                     None \<Rightarrow> again
                   | Some result \<Rightarrow>
                       (case read_result result of
                          Inl e \<Rightarrow> (Inl e, [Post])
                        | Inr ai_response \<Rightarrow> (Inr True, Post # forward lib h ai_response)))
                else if status_code = 401 then (Inr False, [Post])
                else again
            | Timeout \<Rightarrow> again
            | RequestException \<Rightarrow> again))"
  by pat_completeness auto
termination
  by (relation "measure (\<lambda>(lib, h, net, attempt). retry_count h - attempt)") auto

declare retry_loop.simps [simp del]

text \<open>
  \<^verbatim>\<open>send\<close>: with metadata the context is appended to the system prompt, which raises
  \<^verbatim>\<open>TypeError\<close> when the prompt is \<^verbatim>\<open>None\<close>; then the retry loop runs.
\<close>

definition openai_send ::
  "pylib \<Rightarrow> openai \<Rightarrow> (nat \<Rightarrow> http_result) \<Rightarrow> string \<Rightarrow> metadata
     \<Rightarrow> (py_exn + bool) \<times> api_io list" where
  "openai_send lib h net text md =
     (if md \<noteq> [] \<and> system_prompt h = None then (Inl TypeError, [])
      else retry_loop lib h net 0)"

section \<open>ConsoleOutputHandler\<close>

record console =
  show_partial :: bool
  show_final :: bool

text \<open>The three lines the handler prints, with the text they show.\<close>

datatype line = PartialLine string | FinalLine string | CompleteLine string

definition msg_type :: "metadata \<Rightarrow> string" where
  "msg_type md =
     (if md \<noteq> [] then (case map_of md ''type'' of Some t \<Rightarrow> t | None \<Rightarrow> ''unknown'')
      else ''unknown'')"

definition console_line :: "console \<Rightarrow> string \<Rightarrow> metadata \<Rightarrow> line option" where
  "console_line c text md =
     (if msg_type md = ''partial'' \<and> show_partial c then Some (PartialLine text)
      else if msg_type md = ''final'' \<and> show_final c then Some (FinalLine text)
      else if msg_type md = ''complete'' then Some (CompleteLine text)
      else None)"

text \<open>
  \<^verbatim>\<open>send\<close>: \<open>print_ok\<close> tells whether formatting and printing a line go through
  without an exception; the \<^verbatim>\<open>except\<close> clause turns an exception into \<open>False\<close>.
\<close>

definition console_send :: "console \<Rightarrow> bool \<Rightarrow> string \<Rightarrow> metadata \<Rightarrow> bool \<times> line list" where
  "console_send c print_ok text md =
     (case console_line c text md of
        None \<Rightarrow> (True, [])
      | Some l \<Rightarrow> if print_ok then (True, [l]) else (False, []))"

section \<open>MultiOutputHandler\<close>

text \<open>
  A registered handler is an object with a state and a \<^verbatim>\<open>send\<close> method, which
  returns a value (of which only the truth value is used) or raises, and changes the
  state.
\<close>

datatype outcome = Raised | Returned bool

datatype 's handler =
  Handler (send_method: "'s \<Rightarrow> string \<Rightarrow> metadata \<Rightarrow> outcome \<times> 's") (handler_state: 's)

text \<open>One turn of the loop: the call inside \<^verbatim>\<open>try\<close>, and what is appended to the results.\<close>

definition call_handler :: "'s handler \<Rightarrow> string \<Rightarrow> metadata \<Rightarrow> bool \<times> 's handler" where
  "call_handler h text md =
     (case send_method h (handler_state h) text md of
        (Returned r, s') \<Rightarrow> (r, Handler (send_method h) s')
      | (Raised, s') \<Rightarrow> (False, Handler (send_method h) s'))"

fun send_each :: "'s handler list \<Rightarrow> string \<Rightarrow> metadata \<Rightarrow> bool list \<times> 's handler list" where
  "send_each [] text md = ([], [])"
| "send_each (h # hs) text md =
     (let (r, h') = call_handler h text md; (rs, hs') = send_each hs text md
      in (r # rs, h' # hs'))"

definition multi_send :: "'s handler list \<Rightarrow> string \<Rightarrow> metadata \<Rightarrow> bool \<times> 's handler list" where
  "multi_send handlers text md =
     (let (results, handlers') = send_each handlers text md
      in (list_ex (\<lambda>r. r) results, handlers'))"

text \<open>The console handler as a registered handler; its state is what it has printed.\<close>

definition console_handler :: "console \<Rightarrow> bool \<Rightarrow> line list handler" where
  "console_handler c print_ok =
     Handler (\<lambda>printed text md.
                let (r, out) = console_send c print_ok text md
                in (Returned r, printed @ out)) []"

section \<open>VoskSTTEngine\<close>

text \<open>
  The engine object.  \<open>stop_event\<close> is the \<^verbatim>\<open>threading.Event\<close>, \<open>stream_active\<close> is
  \<^verbatim>\<open>stream.is_active()\<close>, \<open>timer_armed\<close> says that an auto-stop timer is waiting,
  \<open>thread_alive\<close> that the audio thread has not returned.  The five \<open>on_..._set\<close>
  fields say which callbacks are installed, and \<open>emitted\<close> lists the callbacks made so
  far.  Callbacks return normally: those the controller installs print or dispatch, and
  the dispatcher catches what its handlers raise.
\<close>

datatype callback =
  OnPartial string | OnFinal string | OnComplete string | OnError | OnStatus string

record engine =
  is_initialized :: bool
  is_listening :: bool
  is_running :: bool
  shutdown_requested :: bool
  stop_event :: bool
  stream_active :: bool
  timer_armed :: bool
  thread_alive :: bool
  auto_stop_duration :: "nat option"
  on_partial_set :: bool
  on_final_set :: bool
  on_complete_set :: bool
  on_error_set :: bool
  on_status_set :: bool
  emitted :: "callback list"

definition emit :: "bool \<Rightarrow> callback \<Rightarrow> engine \<Rightarrow> engine" where
  "emit installed cb e = (if installed then e\<lparr>emitted := emitted e @ [cb]\<rparr> else e)"

subsection \<open>The watchdog\<close>

definition auto_stop_callback :: "engine \<Rightarrow> engine" where
  "auto_stop_callback e =
     (if is_listening e \<and> \<not> shutdown_requested e then e\<lparr>stop_event := True\<rparr> else e)"

text \<open>The timer thread: when its time is over and nobody cancelled it, it runs the callback.\<close>

definition timer_fires :: "engine \<Rightarrow> engine" where
  "timer_fires e =
     (if timer_armed e then auto_stop_callback (e\<lparr>timer_armed := False\<rparr>) else e)"

subsection \<open>start_listening and stop_listening\<close>

definition start_listening :: "engine \<Rightarrow> py_exn + engine" where
  "start_listening e =
     (if \<not> is_initialized e then Inl RuntimeError
      else if is_listening e then Inr e
      else
        (let e1 = e\<lparr>shutdown_requested := False, stop_event := False,
                     is_listening := True, is_running := True\<rparr>;
             e2 = (if \<not> stream_active e1 then e1\<lparr>stream_active := True\<rparr> else e1);
             e3 = e2\<lparr>thread_alive := True\<rparr>;
             e4 = (case auto_stop_duration e3 of
                     None \<Rightarrow> e3
                   | Some d \<Rightarrow> if d = 0 then e3 else e3\<lparr>timer_armed := True\<rparr>)
         in Inr (emit (on_status_set e4) (OnStatus ''listening_started'') e4)))"

text \<open>
  What \<^verbatim>\<open>stop_listening\<close> meets: whether the audio thread ends within the two
  seconds of \<^verbatim>\<open>join\<close>, and the \<^verbatim>\<open>text\<close> of the recogniser's final result
  (\<open>None\<close> when getting it raises).
\<close>

record stop_env =
  join_finishes :: bool
  final_result :: "string option"

definition safe_get_final_result :: "stop_env \<Rightarrow> engine \<Rightarrow> engine" where
  "safe_get_final_result env e =
     (case final_result env of
        None \<Rightarrow> emit (on_error_set e) OnError e
      | Some t \<Rightarrow>
          (let text = strip t
           in if text \<noteq> [] then emit (on_complete_set e) (OnComplete text) e else e))"

definition stop_listening :: "stop_env \<Rightarrow> engine \<Rightarrow> engine" where
  "stop_listening env e =
     (if \<not> is_listening e then e
      else
        (let e1 = e\<lparr>shutdown_requested := True, is_listening := False, stop_event := True\<rparr>;
             e2 = (if stream_active e1 then e1\<lparr>stream_active := False\<rparr> else e1);
             e3 = (if timer_armed e2 then e2\<lparr>timer_armed := False\<rparr> else e2);
             e4 = (if thread_alive e3 \<and> join_finishes env then e3\<lparr>thread_alive := False\<rparr>
                   else e3);
             e5 = safe_get_final_result env e4
         in emit (on_status_set e5) (OnStatus ''listening_stopped'') e5))"

subsection \<open>The capture loop\<close>

text \<open>
  What one turn of the loop reads: nothing available, a complete utterance, a partial
  hypothesis, an exception whose message contains \<^verbatim>\<open>Input overflowed\<close>, or any other
  exception of the inner \<^verbatim>\<open>try\<close> block.
\<close>

datatype chunk = NoData | Utterance string | Hypothesis string | Overflowed | Failure

text \<open>One turn of \<^verbatim>\<open>while True\<close>; the second component says that the loop is left.\<close>

definition loop_iteration :: "engine \<Rightarrow> chunk \<Rightarrow> engine \<times> bool" where
  "loop_iteration e c =
     (if stop_event e then (e, True)
      else if \<not> is_running e \<or> \<not> is_listening e \<or> shutdown_requested e then (e, True)
      else
        (case c of
           NoData \<Rightarrow> (e, False)
         | Utterance t \<Rightarrow>
             (if strip t \<noteq> [] then emit (on_final_set e) (OnFinal (strip t)) e else e, False)
         | Hypothesis t \<Rightarrow>
             (if strip t \<noteq> [] then emit (on_partial_set e) (OnPartial (strip t)) e else e, False)
         | Overflowed \<Rightarrow> (e, False)
         | Failure \<Rightarrow> (emit (on_error_set e) OnError e, True)))"

text \<open>
  The loop over what the stream delivers.  \<open>None\<close>: the loop is still running when the
  list is used up.  When the loop is left the thread returns.
\<close>

fun audio_processing_loop :: "engine \<Rightarrow> chunk list \<Rightarrow> engine option" where
  "audio_processing_loop e [] = None"
| "audio_processing_loop e (c # cs) =
     (case loop_iteration e c of
        (e', True) \<Rightarrow> Some (e'\<lparr>thread_alive := False\<rparr>)
      | (e', False) \<Rightarrow> audio_processing_loop e' cs)"

section \<open>Notions used to state the properties\<close>

text \<open>The integer a JSON number is truncated to, for a number \<^verbatim>\<open>int()\<close> accepts.\<close>

definition int_of_number :: "json \<Rightarrow> int option" where
  "int_of_number v =
     (case v of
        JInt i \<Rightarrow> Some i
      | JFloat f \<Rightarrow> (case f of Finite q \<Rightarrow> Some (trunc q) | _ \<Rightarrow> None)
      | _ \<Rightarrow> None)"

text \<open>
  How one attempt of the remote call ends, read off its response: the body of a 200 can
  be decoded and read (\<open>Answered\<close>), is JSON of another shape so that reading it raises
  (\<open>Malformed\<close>), the status is 401 (\<open>Unauthorized\<close>), or the attempt is one to
  repeat (\<open>Transient\<close>: a timeout, a request exception, any other status, or a 200
  whose body is not JSON).
\<close>

datatype verdict = Answered json | Malformed py_exn | Unauthorized | Transient

definition verdict_of :: "pylib \<Rightarrow> http_result \<Rightarrow> verdict" where
  "verdict_of lib r =
     (case r of
        Response status_code body \<Rightarrow>
          if status_code = 200 then
            (case json_loads lib body of
               None \<Rightarrow> Transient
             | Some result \<Rightarrow>
                 (case read_result result of Inl e \<Rightarrow> Malformed e | Inr a \<Rightarrow> Answered a))
          else if status_code = 401 then Unauthorized
          else Transient
      | Timeout \<Rightarrow> Transient
      | RequestException \<Rightarrow> Transient)"

text \<open>The payload can be built: there is no metadata, or there is a system prompt.\<close>

definition payload_ok :: "openai \<Rightarrow> metadata \<Rightarrow> bool" where
  "payload_ok h md = (md = [] \<or> system_prompt h \<noteq> None)"

section \<open>Data of the examples\<close>

text \<open>
  What \<^verbatim>\<open>json.loads\<close> returns on the strings it is given in the examples (\<open>None\<close>:
  it raises \<^verbatim>\<open>JSONDecodeError\<close>); no other string is decoded there.  The float is the
  binary64 value of \<^verbatim>\<open>20.7\<close>.  In the examples \<^verbatim>\<open>str()\<close> is applied to strings only
  and \<^verbatim>\<open>int()\<close> to numbers only, so the other two functions of the library are not
  called.
\<close>

definition decoded_samples :: "(string \<times> json option) list" where
  \<open>decoded_samples =
     [(''{"action":"Close","degree":20.7}'',
         Some (JObj [(''action'', JStr ''Close''),
                     (''degree'', JFloat (Finite (5826532017910579 / 281474976710656)))])),
      (''{"action":"open","degree":5}'',
         Some (JObj [(''action'', JStr ''open''), (''degree'', JInt 5)])),
      (''{"action":"open","degree":5} }'', None),
      (''{"action":"open","degree":1e999}'',
         Some (JObj [(''action'', JStr ''open''), (''degree'', JFloat PosInf)])),
      (''{open}'', None),
      (''{"degree":30}'', Some (JObj [(''degree'', JInt 30)])),
      (''{"act":"open","deg":30}'',
         Some (JObj [(''act'', JStr ''open''), (''deg'', JInt 30)])),
      (''{"action":"move","degree":0}'',
         Some (JObj [(''action'', JStr ''move''), (''degree'', JInt 0)])),
      (''{"action":" move","degree":0}'',
         Some (JObj [(''action'', JStr '' move''), (''degree'', JInt 0)])),
      (''{"choices":[{"message":{"content":"{open}"}}],"usage":{"total_tokens":9}}'',
         Some (JObj [(''choices'',
                       JArr [JObj [(''message'', JObj [(''content'', JStr ''{open}'')])]]),
                     (''usage'', JObj [(''total_tokens'', JInt 9)])])),
      (''<html>'', None)]\<close>

definition sample_lib :: pylib where
  "sample_lib =
     \<lparr> json_loads = (\<lambda>s. case map_of decoded_samples s of Some r \<Rightarrow> r | None \<Rightarrow> None),
       str_of_value = (\<lambda>v. []),
       int_of_str = (\<lambda>s. None) \<rparr>"

definition open_port :: esp32 where
  "open_port = \<lparr> is_connected = True, port_accepts = (\<lambda>bytes. True) \<rparr>"

text \<open>A network on which every attempt ends in the same way.\<close>

definition always :: "http_result \<Rightarrow> nat \<Rightarrow> http_result" where
  "always r attempt = r"

definition sample_openai :: openai where
  "sample_openai =
     \<lparr> system_prompt = Some ''window'', retry_count = 3, esp32_handler = Some open_port \<rparr>"

definition raising_handler :: "nat handler" where
  "raising_handler = Handler (\<lambda>calls text md. (Raised, Suc calls)) 0"

definition accepting_handler :: "nat handler" where
  "accepting_handler = Handler (\<lambda>calls text md. (Returned True, Suc calls)) 0"

definition quiet_console :: console where
  "quiet_console = \<lparr> show_partial = False, show_final = True \<rparr>"

definition ready_engine :: engine where
  "ready_engine =
     \<lparr> is_initialized = True, is_listening = False, is_running = False,
       shutdown_requested = False, stop_event = False, stream_active = False,
       timer_armed = False, thread_alive = False, auto_stop_duration = Some 8,
       on_partial_set = True, on_final_set = True, on_complete_set = True,
       on_error_set = True, on_status_set = True, emitted = [] \<rparr>"

definition listening_engine :: engine where
  "listening_engine = (case start_listening ready_engine of Inr e \<Rightarrow> e | Inl x \<Rightarrow> ready_engine)"

text \<open>
  The engine after \<^verbatim>\<open>start_listening\<close>, the watchdog firing and the capture loop
  leaving on the event.
\<close>

definition after_watchdog :: engine where
  "after_watchdog =
     \<lparr> is_initialized = True, is_listening = True, is_running = True,
       shutdown_requested = False, stop_event = True, stream_active = True,
       timer_armed = False, thread_alive = False, auto_stop_duration = Some 8,
       on_partial_set = True, on_final_set = True, on_complete_set = True,
       on_error_set = True, on_status_set = True,
       emitted = [OnStatus ''listening_started''] \<rparr>"

definition stop_sample :: stop_env where
  "stop_sample = \<lparr> join_finishes = True, final_result = Some ''open the window'' \<rparr>"

section \<open>Properties of the ESP32 handler\<close>

lemma json_match_None_iff:
  "json_match t = None \<longleftrightarrow> CHR ''}'' \<notin> set (dropWhile (\<lambda>c. c \<noteq> CHR ''{'') t)"
  by (auto simp: json_match_def Let_def dropWhile_eq_Nil_conv)


lemma dropWhile_dropWhile_weaker:
  "(\<And>c. Q c \<Longrightarrow> P c) \<Longrightarrow> dropWhile P (dropWhile Q t) = dropWhile P t"
  by (induction t) auto

lemma not_space_brace: "\<not> is_space (CHR ''{'')" "\<not> is_space (CHR ''}'')"
  by (simp_all add: is_space_def code_def)

lemma strip_decomp:
  "\<exists>ws. dropWhile is_space t = strip t @ ws \<and> (\<forall>c \<in> set ws. is_space c)"
proof -
  let ?a = "dropWhile is_space t"
  have "rev ?a = takeWhile is_space (rev ?a) @ dropWhile is_space (rev ?a)" by simp
  then have "?a = rev (dropWhile is_space (rev ?a)) @ rev (takeWhile is_space (rev ?a))"
    by (metis rev_append rev_rev_ident)
  moreover have "\<forall>c \<in> set (rev (takeWhile is_space (rev ?a))). is_space c"
    by (auto dest: set_takeWhileD)
  ultimately show ?thesis unfolding strip_def by blast
qed

lemma json_match_strip: "json_match (strip t) = None \<longleftrightarrow> json_match t = None"
proof -
  let ?P = "\<lambda>c. c \<noteq> CHR ''{''"
  obtain ws where a: "dropWhile is_space t = strip t @ ws" and ws: "\<forall>c \<in> set ws. is_space c"
    using strip_decomp by blast
  have ws1: "\<forall>c \<in> set ws. ?P c" and ws2: "CHR ''}'' \<notin> set ws"
    using ws not_space_brace by auto
  have "dropWhile ?P t = dropWhile ?P (dropWhile is_space t)"
    using not_space_brace by (intro dropWhile_dropWhile_weaker [symmetric]) auto
  then have eq: "dropWhile ?P t = dropWhile ?P (strip t @ ws)" by (simp add: a)
  show ?thesis
  proof (cases "\<forall>c \<in> set (strip t). ?P c")
    case True
    then have e1: "dropWhile ?P (strip t) = []" by (auto simp: dropWhile_eq_Nil_conv)
    from True ws1 have e2: "dropWhile ?P (strip t @ ws) = []"
      by (auto simp: dropWhile_eq_Nil_conv)
    show ?thesis unfolding json_match_None_iff eq e1 e2 by simp
  next
    case False
    then obtain x where "x \<in> set (strip t)" "\<not> ?P x" by blast
    then have e3: "dropWhile ?P (strip t @ ws) = dropWhile ?P (strip t) @ ws"
      by (rule dropWhile_append1)
    show ?thesis unfolding json_match_None_iff eq e3 using ws2 by simp
  qed
qed

lemma json_match_ends:
  assumes "json_match t = Some m"
  shows "m \<noteq> [] \<and> hd m = CHR ''{'' \<and> last m = CHR ''}''"
proof -
  define fb where "fb = dropWhile (\<lambda>c. c \<noteq> CHR ''{'') t"
  define d where "d = dropWhile (\<lambda>c. c \<noteq> CHR ''}'') (rev fb)"
  from assms have m: "m = rev d" and ne: "d \<noteq> []"
    by (auto simp: json_match_def Let_def fb_def d_def split: if_splits)
  have "hd d = CHR ''}''" using ne hd_dropWhile [of "\<lambda>c. c \<noteq> CHR ''}''" "rev fb"]
    by (simp add: d_def)
  then have l: "last m = CHR ''}''" using ne by (simp add: m last_rev)
  have "rev fb = takeWhile (\<lambda>c. c \<noteq> CHR ''}'') (rev fb) @ d" by (simp add: d_def)
  then have fb: "fb = m @ rev (takeWhile (\<lambda>c. c \<noteq> CHR ''}'') (rev fb))"
    by (metis m rev_append rev_rev_ident)
  have "fb \<noteq> []" using ne by (auto simp: d_def)
  then have "hd fb = CHR ''{''" using hd_dropWhile [of "\<lambda>c. c \<noteq> CHR ''{''" t]
    by (simp add: fb_def)
  moreover have "hd fb = hd m" using fb ne m by (metis hd_append2 rev_is_Nil_conv)
  ultimately show ?thesis using ne m l by simp
qed

lemma strip_json_match:
  assumes "json_match t = Some m"
  shows "strip m = m"
proof -
  from json_match_ends [OF assms] obtain x xs where m: "m = x # xs" and x: "x = CHR ''{''"
    and l: "last m = CHR ''}''" by (cases m) auto
  have a: "dropWhile is_space m = m" using m x not_space_brace by simp
  have "m = butlast m @ [CHR ''}'']" using m l append_butlast_last_id [of m] by simp
  then obtain ys where "m = ys @ [CHR ''}'']" ..
  then have r: "rev m = CHR ''}'' # rev ys" by simp
  have "dropWhile is_space (rev m) = rev m" unfolding r using not_space_brace by simp
  then show ?thesis by (simp add: strip_def a)
qed

lemma send_command_writes:
  "set (snd (send_command h c encs)) \<subseteq> range Write"
  by (auto simp: send_command_def split: option.splits)

lemma send_unfold:
  "send lib h text =
     (if command_to_send lib text \<noteq> [] \<and> command_to_send lib text \<noteq> ''move0''
      then (fst (send_command h (command_to_send lib text) [Ascii, Utf8]),
            SendCommand (command_to_send lib text)
              # snd (send_command h (command_to_send lib text) [Ascii, Utf8]))
      else (False, []))"
  by (simp add: send_def Let_def split_beta)

text \<open>
  Claim C1.  Whatever text the ESP32 handler's \<^verbatim>\<open>send\<close> is given, the string
  \<^verbatim>\<open>move0\<close> is never the argument of a call of \<^verbatim>\<open>send_command\<close>: the command
  taken from the JSON object and the text used in its place both pass the final test
  against the sentinel before \<^verbatim>\<open>send_command\<close> is called.
\<close>

theorem send_never_passes_sentinel:
  "SendCommand ''move0'' \<notin> set (snd (send lib h text))"
proof -
  have "SendCommand ''move0'' \<notin> set (snd (send_command h c [Ascii, Utf8]))" for c
    using send_command_writes [of h c "[Ascii, Utf8]"] by auto
  then show ?thesis unfolding send_unfold by auto
qed

theorem send_never_passes_sentinel_witness:
  \<open>parse_json_to_command sample_lib ''{"action":"move","degree":0}'' = ''move0''
   \<and> SendCommand ''move0''
        \<notin> set (snd (send sample_lib open_port ''{"action":"move","degree":0}''))\<close>
proof -
  have \<open>parse_json_to_command sample_lib ''{"action":"move","degree":0}'' = ''move0''\<close>
    by code_simp
  then show ?thesis
    using send_never_passes_sentinel [of sample_lib open_port] by simp
qed

text \<open>
  A remark on the claim: it is about the argument of \<^verbatim>\<open>send_command\<close>.  That method
  strips its argument, so the command of an action with a leading blank passes the test
  and is written as \<^verbatim>\<open>move0\<close>.
\<close>

lemma sentinel_after_strip:
  \<open>send sample_lib open_port ''{"action":" move","degree":0}''
     = (True, [SendCommand '' move0'', Write (''move0'' @ [CHR 0x0A])])\<close>
  by code_simp





text \<open>
  Claim C6 says that every text containing exactly one balanced JSON object with a
  string \<^verbatim>\<open>action\<close> and a number \<^verbatim>\<open>degree\<close> yields the lower-cased action followed
  by the truncated degree.  It fails in two ways.  The regular expression takes
  everything from the first opening to the last closing brace, so a closing brace after
  the object spoils the decoding and the whole text becomes the command.  And a number
  too large for a float decodes to infinity, on which \<^verbatim>\<open>int()\<close> raises.
\<close>

theorem json_object_counterexample:
  \<open>json_loads sample_lib ''{"action":"open","degree":5}''
     = Some (JObj [(''action'', JStr ''open''), (''degree'', JInt 5)])
   \<and> command_to_send sample_lib ''{"action":"open","degree":5} }''
     = ''{"action":"open","degree":5} }''
   \<and> json_loads sample_lib ''{"action":"open","degree":1e999}''
     = Some (JObj [(''action'', JStr ''open''), (''degree'', JFloat PosInf)])
   \<and> parse_json_to_command sample_lib ''{"action":"open","degree":1e999}'' = ''move0''\<close>
  by code_simp

text \<open>
  Claim C6, as the code has it.  When the part of the stripped text from its first
  opening brace to its last closing brace decodes to an object whose \<^verbatim>\<open>action\<close> is a
  string and whose \<^verbatim>\<open>degree\<close> is an integer or a finite float,
  \<^verbatim>\<open>parse_json_to_command\<close> returns the lower-cased action followed by the degree
  truncated towards zero, whatever its range; and this is the command \<^verbatim>\<open>send\<close>
  uses, unless it is \<^verbatim>\<open>move0\<close>.
\<close>

theorem json_object_to_command:
  assumes "json_match (strip text) = Some json_str"
    and "json_loads lib json_str = Some (JObj d)"
    and "map_of d ''action'' = Some (JStr action)"
    and "map_of d ''degree'' = Some degree"
    and "int_of_number degree = Some n"
  shows "parse_json_to_command lib json_str = lower action @ str_int n
    \<and> (lower action @ str_int n \<noteq> ''move0''
         \<longrightarrow> command_to_send lib text = lower action @ str_int n)"
proof -
  have s: "strip json_str = json_str" using assms(1) by (rule strip_json_match)
  have i: "py_int lib degree = Inr n"
    using assms(5) by (auto simp: int_of_number_def py_int_def split: json.splits pyfloat.splits)
  have j: "json_to_command lib json_str = Inr (lower action @ str_int n)"
    using assms(2,3,4) i by (simp add: json_to_command_def s dict_get_def py_str_def)
  then have p: "parse_json_to_command lib json_str = lower action @ str_int n"
    by (simp add: parse_json_to_command_def)
  have "digits_of k \<noteq> []" for k by (subst digits_of.simps) simp
  then have "str_int n \<noteq> []" by (simp add: str_int_def)
  then have ne: "lower action @ str_int n \<noteq> []" by simp
  have "command_to_send lib text = lower action @ str_int n"
    if "lower action @ str_int n \<noteq> ''move0''"
    unfolding command_to_send_def Let_def assms(1) option.case p using ne that by auto
  with p show ?thesis by simp
qed

theorem json_object_to_command_witness:
  \<open>command_to_send sample_lib ''Sure: {"action":"Close","degree":20.7} ok'' = ''close20''\<close>
proof -
  let ?t = \<open>''Sure: {"action":"Close","degree":20.7} ok''\<close>
  let ?j = \<open>''{"action":"Close","degree":20.7}''\<close>
  let ?q = "5826532017910579 / 281474976710656 :: rat"
  let ?d = "[(''action'', JStr ''Close''), (''degree'', JFloat (Finite ?q))]"
  have a: "json_match (strip ?t) = Some ?j" by code_simp
  have b: "json_loads sample_lib ?j = Some (JObj ?d)" by code_simp
  have c: "map_of ?d ''action'' = Some (JStr ''Close'')" by simp
  have d: "map_of ?d ''degree'' = Some (JFloat (Finite ?q))" by simp
  have e: "int_of_number (JFloat (Finite ?q)) = Some 20" by code_simp
  have f: "lower ''Close'' @ str_int 20 = ''close20''" by code_simp
  show ?thesis using json_object_to_command [OF a b c d e] unfolding f by simp
qed

text \<open>
  Claim C7 says that a text without a \<^verbatim>\<open>{...}\<close> part is offered for transmission,
  stripped, unless it is the sentinel.  A text of blanks only is a counterexample: its
  stripped form is empty, not the sentinel, and \<^verbatim>\<open>send\<close> skips it.
\<close>

theorem no_json_counterexample:
  "json_match ''  '' = None \<and> strip ''  '' \<noteq> ''move0''
   \<and> send sample_lib open_port ''  '' = (False, [])"
  by code_simp

text \<open>
  Claim C7, as the code has it.  For a text without a \<^verbatim>\<open>{...}\<close> part the command is
  the stripped text; \<^verbatim>\<open>send\<close> calls \<^verbatim>\<open>send_command\<close> with it unless it is empty or
  the sentinel, and in these two cases returns \<open>False\<close> without a call.
\<close>

theorem no_json_falls_back_to_text:
  assumes "json_match text = None"
  shows "command_to_send lib text = strip text
    \<and> (strip text \<noteq> [] \<and> strip text \<noteq> ''move0''
         \<longrightarrow> send lib h text
               = (fst (send_command h (strip text) [Ascii, Utf8]),
                  SendCommand (strip text) # snd (send_command h (strip text) [Ascii, Utf8])))
    \<and> (strip text = [] \<or> strip text = ''move0'' \<longrightarrow> send lib h text = (False, []))"
proof -
  have "json_match (strip text) = None" using assms by (simp add: json_match_strip)
  then have c: "command_to_send lib text = strip text"
    by (simp add: command_to_send_def Let_def)
  show ?thesis unfolding send_unfold c by auto
qed

theorem no_json_falls_back_to_text_witness:
  "json_match ''I am not sure'' = None
   \<and> command_to_send sample_lib ''I am not sure'' = ''I am not sure''
   \<and> send sample_lib open_port ''I am not sure''
       = (True, [SendCommand ''I am not sure'', Write (''I am not sure'' @ [CHR 0x0A])])"
proof -
  have a: "json_match ''I am not sure'' = None" by code_simp
  have b: "strip ''I am not sure'' = ''I am not sure''" by code_simp
  have c: "send_command open_port ''I am not sure'' [Ascii, Utf8]
             = (True, [Write (''I am not sure'' @ [CHR 0x0A])])" by code_simp
  show ?thesis
    using a no_json_falls_back_to_text [OF a, of sample_lib open_port] unfolding b c by simp
qed

section \<open>Properties of the OpenAI handler\<close>

lemma retry_loop_end:
  "retry_count h \<le> a \<Longrightarrow> retry_loop lib h net a = (Inr False, [])"
  by (subst retry_loop.simps) simp

lemma retry_loop_step:
  assumes "a < retry_count h"
  shows "fst (retry_loop lib h net a) =
           (case verdict_of lib (net a) of
              Answered ai \<Rightarrow> Inr True
            | Malformed e \<Rightarrow> Inl e
            | Unauthorized \<Rightarrow> Inr False
            | Transient \<Rightarrow> fst (retry_loop lib h net (a + 1)))"
  using assms
  by (subst retry_loop.simps)
     (simp add: verdict_of_def Let_def split_beta
           split: http_result.splits option.splits sum.splits)

lemma retry_loop_all_transient:
  "(\<forall>i. a \<le> i \<and> i < retry_count h \<longrightarrow> verdict_of lib (net i) = Transient)
   \<Longrightarrow> fst (retry_loop lib h net a) = Inr False"
proof (induction "retry_count h - a" arbitrary: a)
  case 0
  then show ?case by (simp add: retry_loop_end)
next
  case (Suc n)
  then have lt: "a < retry_count h" by simp
  have t: "verdict_of lib (net a) = Transient" using Suc.prems lt by simp
  have "fst (retry_loop lib h net (a + 1)) = Inr False"
    using Suc.hyps Suc.prems by (intro Suc.hyps(1)) auto
  then show ?case by (simp add: retry_loop_step [OF lt] t)
qed

lemma retry_loop_first_decisive:
  assumes "a \<le> k" "k < retry_count h"
    and "\<forall>i. a \<le> i \<and> i < k \<longrightarrow> verdict_of lib (net i) = Transient"
  shows "fst (retry_loop lib h net a) =
           (case verdict_of lib (net k) of
              Answered ai \<Rightarrow> Inr True
            | Malformed e \<Rightarrow> Inl e
            | Unauthorized \<Rightarrow> Inr False
            | Transient \<Rightarrow> fst (retry_loop lib h net (k + 1)))"
  using assms
proof (induction "k - a" arbitrary: a)
  case 0
  then have "a = k" by simp
  then show ?case using "0.prems" by (simp add: retry_loop_step)
next
  case (Suc n)
  then have lt: "a < k" by simp
  then have lt': "a < retry_count h" using Suc.prems by simp
  have t: "verdict_of lib (net a) = Transient" using Suc.prems lt by simp
  have "fst (retry_loop lib h net (a + 1)) =
           (case verdict_of lib (net k) of
              Answered ai \<Rightarrow> Inr True
            | Malformed e \<Rightarrow> Inl e
            | Unauthorized \<Rightarrow> Inr False
            | Transient \<Rightarrow> fst (retry_loop lib h net (k + 1)))"
    using Suc.hyps Suc.prems lt by (intro Suc.hyps(1)) auto
  then show ?case by (simp add: retry_loop_step [OF lt'] t)
qed

lemma openai_send_unfold:
  "payload_ok h md \<Longrightarrow> openai_send lib h net text md = retry_loop lib h net 0"
  by (auto simp: openai_send_def payload_ok_def)

text \<open>
  Claim C4.  With \<^verbatim>\<open>retry_count = 3\<close>: three responses with status 429 in a row make
  exactly three requests, with a sleep of \<open>2 ^ attempt\<close> seconds after the first (1)
  and after the second (2) and none after the third, and \<^verbatim>\<open>send\<close> returns
  \<open>False\<close>; a 401 on the first attempt makes \<^verbatim>\<open>send\<close> return \<open>False\<close> after that
  one request, without a sleep.
\<close>

theorem retry_on_429_abort_on_401:
  assumes "retry_count h = 3" and "payload_ok h md"
  shows "((\<forall>i<3. \<exists>body. net i = Response 429 body)
            \<longrightarrow> openai_send lib h net text md
                  = (Inr False, [Post, Sleep 1, Post, Sleep 2, Post]))
       \<and> ((\<exists>body. net 0 = Response 401 body)
            \<longrightarrow> openai_send lib h net text md = (Inr False, [Post]))"
proof (intro conjI impI)
  assume a: "\<forall>i<3. \<exists>body. net i = Response 429 body"
  then obtain b0 b1 b2 where n: "net 0 = Response 429 b0" "net 1 = Response 429 b1"
    "net 2 = Response 429 b2"
    by (metis numeral_3_eq_3 zero_less_Suc One_nat_def Suc_1 Suc_less_eq lessI)
  have r3: "retry_loop lib h net 3 = (Inr False, [])"
    using assms(1) by (simp add: retry_loop_end)
  have r2: "retry_loop lib h net 2 = (Inr False, [Post])"
    using assms(1) n r3 by (subst retry_loop.simps) (simp add: numeral_3_eq_3)
  have r1: "retry_loop lib h net 1 = (Inr False, [Post, Sleep 2, Post])"
    using assms(1) n r2 by (subst retry_loop.simps) (simp add: numeral_2_eq_2)
  have r0: "retry_loop lib h net 0 = (Inr False, [Post, Sleep 1, Post, Sleep 2, Post])"
    using assms(1) n r1 by (subst retry_loop.simps) simp
  show "openai_send lib h net text md = (Inr False, [Post, Sleep 1, Post, Sleep 2, Post])"
    using r0 assms(2) by (simp add: openai_send_unfold)
next
  assume "\<exists>body. net 0 = Response 401 body"
  then obtain b where "net 0 = Response 401 b" ..
  then have "retry_loop lib h net 0 = (Inr False, [Post])"
    using assms(1) by (subst retry_loop.simps) (simp add: Let_def split_beta)
  then show "openai_send lib h net text md = (Inr False, [Post])"
    using assms(2) by (simp add: openai_send_unfold)
qed

theorem retry_on_429_abort_on_401_witness:
  "retry_count sample_openai = 3 \<and> payload_ok sample_openai [(''type'', ''final'')]
   \<and> openai_send sample_lib sample_openai (always (Response 429 [])) ''open'' [(''type'', ''final'')]
       = (Inr False, [Post, Sleep 1, Post, Sleep 2, Post])
   \<and> openai_send sample_lib sample_openai (always (Response 401 [])) ''open'' [(''type'', ''final'')]
       = (Inr False, [Post])"
proof -
  have a: "retry_count sample_openai = 3" by (simp add: sample_openai_def)
  have b: "payload_ok sample_openai [(''type'', ''final'')]"
    by (simp add: sample_openai_def payload_ok_def)
  show ?thesis
    using a b
      retry_on_429_abort_on_401 [OF a b, of "always (Response 429 [])" sample_lib "''open''"]
      retry_on_429_abort_on_401 [OF a b, of "always (Response 401 [])" sample_lib "''open''"]
    by (simp add: always_def)
qed

text \<open>
  Claim C8 says that \<^verbatim>\<open>send\<close> returns \<open>True\<close> whenever the HTTP call returns status
  200, and \<open>False\<close> exactly when the attempts are used up without a 200 or a 401 ends
  them.  A 200 whose body is not JSON is a counterexample: the decoding error is caught,
  the attempt is repeated, and three such responses make \<^verbatim>\<open>send\<close> return \<open>False\<close>.
\<close>

theorem status_200_counterexample:
  "openai_send sample_lib sample_openai (always (Response 200 ''<html>'')) ''open'' []
     = (Inr False, [Post, Sleep 1, Post, Sleep 2, Post])"
  by code_simp

text \<open>
  Claim C8, as the code has it.  \<^verbatim>\<open>send\<close> returns \<open>True\<close> as soon as an attempt,
  after transient ones only, gets a 200 whose body can be decoded and read, whatever
  the handler it forwards to does; and it returns \<open>False\<close> exactly when every attempt
  is transient or, after transient ones only, one gets a 401.
\<close>

theorem true_on_answered_200:
  assumes "payload_ok h md"
  shows "(\<forall>k<retry_count h.
            (\<forall>i<k. verdict_of lib (net i) = Transient)
            \<and> (\<exists>a. verdict_of lib (net k) = Answered a)
            \<longrightarrow> fst (openai_send lib h net text md) = Inr True)
       \<and> (fst (openai_send lib h net text md) = Inr False
            \<longleftrightarrow> (\<forall>i<retry_count h. verdict_of lib (net i) = Transient)
               \<or> (\<exists>k<retry_count h.
                     (\<forall>i<k. verdict_of lib (net i) = Transient)
                     \<and> verdict_of lib (net k) = Unauthorized))"
proof -
  let ?r = "fst (retry_loop lib h net 0)"
  let ?T = "\<lambda>i. verdict_of lib (net i) = Transient"
  have dec: "?r = (case verdict_of lib (net k) of
                     Answered ai \<Rightarrow> Inr True
                   | Malformed e \<Rightarrow> Inl e
                   | Unauthorized \<Rightarrow> Inr False
                   | Transient \<Rightarrow> fst (retry_loop lib h net (k + 1)))"
    if "k < retry_count h" "\<forall>i<k. ?T i" for k
    using that by (intro retry_loop_first_decisive) auto
  have p1: "?r = Inr True"
    if "k < retry_count h" "\<forall>i<k. ?T i" "\<exists>a. verdict_of lib (net k) = Answered a" for k
    using dec [OF that(1,2)] that(3) by auto
  have p2: "?r = Inr False" if "\<forall>i<retry_count h. ?T i"
    using that by (intro retry_loop_all_transient) auto
  have p3: "?r = Inr False"
    if "k < retry_count h" "\<forall>i<k. ?T i" "verdict_of lib (net k) = Unauthorized" for k
    using dec [OF that(1,2)] that(3) by simp
  have p4: "(\<forall>i<retry_count h. ?T i)
            \<or> (\<exists>k<retry_count h. (\<forall>i<k. ?T i) \<and> verdict_of lib (net k) = Unauthorized)"
    if f: "?r = Inr False"
  proof (cases "\<forall>i<retry_count h. ?T i")
    case True
    then show ?thesis by simp
  next
    case False
    define k where "k = (LEAST i. i < retry_count h \<and> \<not> ?T i)"
    from False have ex: "\<exists>i. i < retry_count h \<and> \<not> ?T i" by blast
    then have k: "k < retry_count h \<and> \<not> ?T k" unfolding k_def by (rule LeastI_ex)
    have before: "\<forall>i<k. ?T i"
    proof (intro allI impI)
      fix i assume "i < k"
      then have "\<not> (i < retry_count h \<and> \<not> ?T i)" unfolding k_def by (rule not_less_Least)
      moreover have "i < retry_count h" using \<open>i < k\<close> k by simp
      ultimately show "?T i" by simp
    qed
    have "verdict_of lib (net k) = Unauthorized"
      using dec [of k] k before f by (cases "verdict_of lib (net k)") auto
    then show ?thesis using k before by blast
  qed
  show ?thesis
    unfolding openai_send_unfold [OF assms] using p1 p2 p3 p4 by blast
qed

theorem true_on_answered_200_witness:
  \<open>payload_ok
      (sample_openai\<lparr>esp32_handler := Some (open_port\<lparr>is_connected := False\<rparr>)\<rparr>) []
   \<and> verdict_of sample_lib (Response 200
        ''{"choices":[{"message":{"content":"{open}"}}],"usage":{"total_tokens":9}}'')
       = Answered (JStr ''{open}'')
   \<and> openai_send sample_lib
        (sample_openai\<lparr>esp32_handler := Some (open_port\<lparr>is_connected := False\<rparr>)\<rparr>)
        (always (Response 200
           ''{"choices":[{"message":{"content":"{open}"}}],"usage":{"total_tokens":9}}''))
        ''open'' []
       = (Inr True, [Post, Forward ''{open}'' False [SendCommand ''{open}'']])\<close>
proof -
  let ?h = "sample_openai\<lparr>esp32_handler := Some (open_port\<lparr>is_connected := False\<rparr>)\<rparr>"
  let ?b = \<open>''{"choices":[{"message":{"content":"{open}"}}],"usage":{"total_tokens":9}}''\<close>
  have a: "payload_ok ?h []" by (simp add: payload_ok_def)
  have v: "verdict_of sample_lib (Response 200 ?b) = Answered (JStr ''{open}'')" by code_simp
  have t: "snd (openai_send sample_lib ?h (always (Response 200 ?b)) ''open'' [])
             = [Post, Forward ''{open}'' False [SendCommand ''{open}'']]" by code_simp
  have r: "0 < retry_count ?h" by (simp add: sample_openai_def)
  have "fst (openai_send sample_lib ?h (always (Response 200 ?b)) ''open'' []) = Inr True"
    using true_on_answered_200 [OF a, of sample_lib "always (Response 200 ?b)" "''open''"] v r
    by (auto simp: always_def)
  with a v t show ?thesis by (simp add: prod_eq_iff)
qed

section \<open>Properties of the dispatcher and the console handler\<close>

lemma send_each_results:
  "fst (send_each hs text md) = map (\<lambda>h. fst (call_handler h text md)) hs"
  by (induction hs) (simp_all add: split_beta)

lemma send_each_handlers:
  "snd (send_each hs text md) = map (\<lambda>h. snd (call_handler h text md)) hs"
  by (induction hs) (simp_all add: split_beta)

lemma call_handler_result:
  "fst (call_handler h text md)
     \<longleftrightarrow> fst (send_method h (handler_state h) text md) = Returned True"
  by (auto simp: call_handler_def split: prod.splits outcome.splits)

lemma call_handler_state:
  "handler_state (snd (call_handler h text md))
     = snd (send_method h (handler_state h) text md)"
  by (auto simp: call_handler_def split: prod.splits outcome.splits)

text \<open>
  Claim C5.  In a dispatch over the registered handlers, the \<^verbatim>\<open>send\<close> of every
  handler is called with the event, whether or not another handler's \<^verbatim>\<open>send\<close>
  raised: afterwards each handler is in the state its own \<^verbatim>\<open>send\<close> leaves it in.
  The dispatch returns \<open>True\<close> exactly when the \<^verbatim>\<open>send\<close> of at least one handler
  returned \<open>True\<close>.
\<close>

theorem dispatch_isolates_failures:
  "length (snd (multi_send hs text md)) = length hs
   \<and> (\<forall>k<length hs.
         handler_state (snd (multi_send hs text md) ! k)
           = snd (send_method (hs ! k) (handler_state (hs ! k)) text md))
   \<and> (fst (multi_send hs text md)
        \<longleftrightarrow> (\<exists>k<length hs.
               fst (send_method (hs ! k) (handler_state (hs ! k)) text md) = Returned True))"
proof -
  have m: "multi_send hs text md
             = (list_ex (\<lambda>r. r) (map (\<lambda>h. fst (call_handler h text md)) hs),
                map (\<lambda>h. snd (call_handler h text md)) hs)"
    by (simp add: multi_send_def split_beta send_each_results send_each_handlers)
  have "list_ex (\<lambda>r. r) (map (\<lambda>h. fst (call_handler h text md)) hs)
          \<longleftrightarrow> (\<exists>k<length hs. fst (call_handler (hs ! k) text md))"
    unfolding list_ex_iff by (force simp: in_set_conv_nth)
  then show ?thesis by (simp add: m call_handler_state call_handler_result)
qed

theorem dispatch_isolates_failures_witness:
  "fst (multi_send [raising_handler, accepting_handler] ''open'' [])
   \<and> map handler_state (snd (multi_send [raising_handler, accepting_handler] ''open'' []))
       = [1, 1]"
proof -
  let ?hs = "[raising_handler, accepting_handler]"
  have l: "length ?hs = 2" by simp
  have k: "(1::nat) < length ?hs
           \<and> fst (send_method (?hs ! 1) (handler_state (?hs ! 1)) ''open'' []) = Returned True"
    by (simp add: accepting_handler_def)
  from dispatch_isolates_failures [of ?hs "''open''" "[]"]
  have len: "length (snd (multi_send ?hs ''open'' [])) = length ?hs"
    and st: "\<forall>k<length ?hs. handler_state (snd (multi_send ?hs ''open'' []) ! k)
               = snd (send_method (?hs ! k) (handler_state (?hs ! k)) ''open'' [])"
    and r: "fst (multi_send ?hs ''open'' [])
              \<longleftrightarrow> (\<exists>k<length ?hs.
                     fst (send_method (?hs ! k) (handler_state (?hs ! k)) ''open'' [])
                       = Returned True)"
    by blast+
  have r': "fst (multi_send ?hs ''open'' [])" using r k by blast
  have s0: "handler_state (snd (multi_send ?hs ''open'' []) ! 0) = 1"
    using st by (simp add: raising_handler_def)
  have s1: "handler_state (snd (multi_send ?hs ''open'' []) ! 1) = 1"
    using st by (simp add: accepting_handler_def)
  have "map handler_state (snd (multi_send ?hs ''open'' [])) = [1, 1]"
    using len s0 s1 by (intro nth_equalityI) (auto simp: less_Suc_eq numeral_2_eq_2)
  with r' show ?thesis by simp
qed

text \<open>
  Claim C10.  The console handler's \<^verbatim>\<open>send\<close> returns \<open>True\<close> for every event whose
  formatting and printing raise nothing, and for every event it has nothing to print
  for; a dispatch over the console handler alone then returns \<open>True\<close> too, also when
  nothing was printed.
\<close>

theorem console_reports_success:
  "(print_ok \<or> console_line c text md = None
      \<longrightarrow> fst (console_send c print_ok text md)
          \<and> fst (multi_send [console_handler c print_ok] text md))
   \<and> (console_line c text md = None
      \<longrightarrow> snd (console_send c print_ok text md) = []
          \<and> map handler_state (snd (multi_send [console_handler c print_ok] text md)) = [[]])"
  by (auto simp: console_send_def multi_send_def console_handler_def call_handler_def
           split_beta split: option.splits)

theorem console_reports_success_witness:
  "console_line quiet_console ''open'' [(''type'', ''partial'')] = None
   \<and> console_send quiet_console False ''open'' [(''type'', ''partial'')] = (True, [])
   \<and> fst (multi_send [console_handler quiet_console False] ''open'' [(''type'', ''partial'')])
   \<and> map handler_state
        (snd (multi_send [console_handler quiet_console False] ''open'' [(''type'', ''partial'')]))
       = [[]]"
proof -
  have a: "console_line quiet_console ''open'' [(''type'', ''partial'')] = None"
    by (simp add: console_line_def msg_type_def quiet_console_def)
  show ?thesis
    using a console_reports_success
            [of False quiet_console "''open''" "[(''type'', ''partial'')]"]
    by (simp add: prod_eq_iff)
qed

section \<open>Properties of the engine\<close>

lemma emit_fields [simp]:
  "is_listening (emit b cb e) = is_listening e"
  "stream_active (emit b cb e) = stream_active e"
  "on_status_set (emit b cb e) = on_status_set e"
  by (simp_all add: emit_def)

lemma safe_get_final_result_fields [simp]:
  "is_listening (safe_get_final_result env e) = is_listening e"
  "stream_active (safe_get_final_result env e) = stream_active e"
  "on_status_set (safe_get_final_result env e) = on_status_set e"
  by (simp_all add: safe_get_final_result_def Let_def split: option.splits)

lemma safe_get_final_result_no_status:
  "count_list (emitted (safe_get_final_result env e)) (OnStatus s)
     = count_list (emitted e) (OnStatus s)"
  by (simp add: safe_get_final_result_def emit_def Let_def split: option.splits)

lemma stop_listening_not_listening:
  "\<not> is_listening (stop_listening env e)"
  by (simp add: stop_listening_def Let_def)

lemma stop_listening_noop:
  "\<not> is_listening e \<Longrightarrow> stop_listening env e = e"
  by (simp add: stop_listening_def)

lemma stop_listening_stream:
  "is_listening e \<Longrightarrow> \<not> stream_active (stop_listening env e)"
  by (simp add: stop_listening_def Let_def)

lemma stop_listening_status:
  "is_listening e \<Longrightarrow>
   count_list (emitted (stop_listening env e)) (OnStatus ''listening_stopped'')
     = count_list (emitted e) (OnStatus ''listening_stopped'')
       + (if on_status_set e then 1 else 0)"
  by (simp add: stop_listening_def Let_def emit_def safe_get_final_result_no_status)

text \<open>
  Claim C9.  \<^verbatim>\<open>stop_listening\<close> is idempotent: a second call right after a first one
  changes nothing.  After a call in the listening state the engine no longer listens,
  and over both calls \<^verbatim>\<open>listening_stopped\<close> is reported once (not at all without a
  status callback).
\<close>

theorem stop_listening_idempotent:
  "stop_listening env2 (stop_listening env1 e) = stop_listening env1 e
   \<and> (is_listening e \<longrightarrow>
        \<not> is_listening (stop_listening env1 e)
        \<and> count_list (emitted (stop_listening env2 (stop_listening env1 e)))
              (OnStatus ''listening_stopped'')
            = count_list (emitted e) (OnStatus ''listening_stopped'')
              + (if on_status_set e then 1 else 0))"
proof -
  have i: "stop_listening env2 (stop_listening env1 e) = stop_listening env1 e"
    by (rule stop_listening_noop) (rule stop_listening_not_listening)
  show ?thesis
    unfolding i using stop_listening_not_listening stop_listening_status by simp
qed

theorem stop_listening_idempotent_witness:
  "is_listening listening_engine
   \<and> stop_listening stop_sample (stop_listening stop_sample listening_engine)
       = stop_listening stop_sample listening_engine
   \<and> emitted (stop_listening stop_sample (stop_listening stop_sample listening_engine))
       = [OnStatus ''listening_started'', OnComplete ''open the window'',
          OnStatus ''listening_stopped'']"
proof -
  have a: "is_listening listening_engine" by code_simp
  have b: "emitted (stop_listening stop_sample listening_engine)
             = [OnStatus ''listening_started'', OnComplete ''open the window'',
                OnStatus ''listening_stopped'']" by code_simp
  show ?thesis
    using a b stop_listening_idempotent [of stop_sample stop_sample listening_engine]
    by simp
qed

text \<open>
  The capture loop contains no call that stops or starts the stream: however it is
  left, the stream is as it was when the loop began.
\<close>

lemma loop_iteration_stream:
  "stream_active (fst (loop_iteration e c)) = stream_active e"
  by (simp add: loop_iteration_def split: chunk.splits)

lemma audio_processing_loop_stream:
  "audio_processing_loop e cs = Some e' \<Longrightarrow> stream_active e' = stream_active e"
proof (induction cs arbitrary: e)
  case Nil
  then show ?case by simp
next
  case (Cons c cs)
  obtain e1 b where l: "loop_iteration e c = (e1, b)" by (cases "loop_iteration e c")
  have s: "stream_active e1 = stream_active e"
    using loop_iteration_stream [of e c] l by simp
  show ?case
  proof (cases b)
    case True
    then show ?thesis using Cons.prems l s by auto
  next
    case False
    then have "audio_processing_loop e1 cs = Some e'" using Cons.prems l by simp
    then show ?thesis using Cons.IH s by simp
  qed
qed

text \<open>
  Claim C3.  Whenever the capture loop is left, because it saw the event (set for
  instance by the watchdog) or because of an error, the audio stream is paused.  The
  code does not do this.  \<^verbatim>\<open>start_listening\<close> starts the stream and arms the
  watchdog.  When the watchdog fires it sets the event; the loop sees it and returns,
  and the thread ends.  The stream is then still active and the engine still counts as
  listening, no \<^verbatim>\<open>listening_stopped\<close> has been reported, and a further
  \<^verbatim>\<open>start_listening\<close> returns at once without doing anything.  The same holds when
  the loop is left on an error, the watchdog still being armed then.  The other way out
  of listening does pause the stream: \<^verbatim>\<open>stop_listening\<close>, called in the state the
  watchdog left, stops it.
\<close>

theorem loop_exit_leaves_stream_active:
  "start_listening ready_engine = Inr listening_engine
   \<and> stream_active listening_engine \<and> timer_armed listening_engine
   \<and> stop_event (timer_fires listening_engine)
   \<and> audio_processing_loop (timer_fires listening_engine) [NoData] = Some after_watchdog
   \<and> stream_active after_watchdog \<and> is_listening after_watchdog
   \<and> \<not> thread_alive after_watchdog
   \<and> emitted after_watchdog = [OnStatus ''listening_started'']
   \<and> start_listening after_watchdog = Inr after_watchdog
   \<and> map_option stream_active (audio_processing_loop listening_engine [Failure]) = Some True
   \<and> map_option is_listening (audio_processing_loop listening_engine [Failure]) = Some True
   \<and> map_option thread_alive (audio_processing_loop listening_engine [Failure]) = Some False
   \<and> map_option emitted (audio_processing_loop listening_engine [Failure])
       = Some [OnStatus ''listening_started'', OnError]
   \<and> \<not> stream_active (stop_listening stop_sample after_watchdog)
   \<and> \<not> is_listening (stop_listening stop_sample after_watchdog)"
  by code_simp

end
